theory Spec2Isabelle
  imports Complex_Main "HOL-Library.Multiset"
begin

section \<open>Speaker recognition example: the notebook as functions\<close>

text \<open>
  The development follows the code cells of
  \<^verbatim>\<open>examples/audio/ipynb/speaker_recognition_using_cnn.ipynb\<close>: noise discovery
  and chunking, noise injection and the spectral transform, the shuffle and the split
  of the dataset, the model, and training with early stopping.
  Python exceptions are values of \<open>py_error\<close>; a cell that can raise returns
  \<open>py_error + 'a\<close> with \<open>Inl\<close> for the exception. Floating-point samples are
  idealised as real numbers; a value that the floating-point code would compute as
  an infinity or a NaN is made explicit where it can arise. Calls into TensorFlow,
  NumPy and Keras are functions of this theory that follow what the library does;
  random draws and trained weights are arguments.
\<close>

datatype py_error =
  RuntimeError | IndexError | ValueError | InvalidArgumentError | NotADirectoryError

subsection \<open>Configuration cell\<close>

definition VALID_SPLIT :: real where
  "VALID_SPLIT = 1 / 10"

definition SHUFFLE_SEED :: nat where
  "SHUFFLE_SEED = 43"

definition SAMPLING_RATE :: nat where
  "SAMPLING_RATE = 16000"

definition SCALE :: real where
  "SCALE = 1 / 2"

definition BATCH_SIZE :: nat where
  "BATCH_SIZE = 128"

subsection \<open>Noise file discovery\<close>

text \<open>
  The noise directory as \<open>os.listdir\<close> and \<open>os.path.isdir\<close> see it: every entry
  has a name and is either something that is not a directory, or a directory with the
  names \<open>os.listdir\<close> returns for it.
\<close>

datatype dir_entry = NotDir string | SubDir string "string list"

definition endswith :: "string \<Rightarrow> string \<Rightarrow> bool" where
  "endswith s suffix =
     (length suffix \<le> length s \<and> drop (length s - length suffix) s = suffix)"

definition path_join :: "string \<Rightarrow> string \<Rightarrow> string" where
  "path_join a b = a @ ''/'' @ b"

definition wav_paths :: "string \<Rightarrow> string list \<Rightarrow> string list" where
  "wav_paths subdir_path names =
     map (path_join subdir_path) (filter (\<lambda>filepath. endswith filepath ''.wav'') names)"

fun noise_paths_loop :: "string \<Rightarrow> dir_entry list \<Rightarrow> string list \<Rightarrow> string list" where
  "noise_paths_loop noise_dir [] noise_paths = noise_paths"
| "noise_paths_loop noise_dir (NotDir name # rest) noise_paths =
     noise_paths_loop noise_dir rest noise_paths"
| "noise_paths_loop noise_dir (SubDir name names # rest) noise_paths =
     noise_paths_loop noise_dir rest (noise_paths @ wav_paths (path_join noise_dir name) names)"

definition find_noise_paths :: "string \<Rightarrow> dir_entry list \<Rightarrow> py_error + string list" where
  "find_noise_paths noise_dir entries =
     (let noise_paths = noise_paths_loop noise_dir entries []
      in if noise_paths = [] then Inl RuntimeError else Inr noise_paths)"

text \<open>The \<open>.wav\<close> names the discovery loop looks at: those listed in a subdirectory.\<close>

fun listed_wavs :: "dir_entry list \<Rightarrow> string list" where
  "listed_wavs [] = []"
| "listed_wavs (NotDir name # rest) = listed_wavs rest"
| "listed_wavs (SubDir name names # rest) =
     filter (\<lambda>filepath. endswith filepath ''.wav'') names @ listed_wavs rest"

subsection \<open>Noise preparation\<close>

text \<open>
  What \<open>tf.audio.decode_wav\<close> with one channel returns for a file: the samples and the
  sampling rate declared in the file.
\<close>

record wav =
  sample :: "real list"
  sampling_rate :: nat

text \<open>
  \<open>tf.split(value, num)\<close> with an integer \<open>num\<close> cuts the first axis into \<open>num\<close>
  pieces of equal length. The operation requires \<open>num \<ge> 1\<close> and a length that
  \<open>num\<close> divides, and raises otherwise.
\<close>

definition tf_split :: "'a list \<Rightarrow> nat \<Rightarrow> py_error + 'a list list" where
  "tf_split v num =
     (if num = 0 \<or> length v mod num \<noteq> 0 then Inl InvalidArgumentError
      else Inr (map (\<lambda>i. take (length v div num) (drop (i * (length v div num)) v))
                  [0..<num]))"

text \<open>
  \<open>load_noise_sample\<close>: \<open>None\<close> is Python's \<open>None\<close>, returned after the warning for
  a file with another sampling rate. \<open>int(sample.shape[0] / SAMPLING_RATE)\<close> is the
  integer quotient for every length a file can have.
\<close>

definition load_noise_sample :: "wav \<Rightarrow> py_error + real list list option" where
  "load_noise_sample w =
     (if sampling_rate w = SAMPLING_RATE then
        (let slices = length (sample w) div SAMPLING_RATE
         in case tf_split (take (slices * SAMPLING_RATE) (sample w)) slices of
              Inl e \<Rightarrow> Inl e
            | Inr chunks \<Rightarrow> Inr (Some chunks))
      else Inr None)"

text \<open>
  The loop over \<open>noise_paths\<close>; \<open>if sample:\<close> is false for \<open>None\<close> and for an empty
  list.
\<close>

fun noises_loop :: "wav list \<Rightarrow> real list list \<Rightarrow> py_error + real list list" where
  "noises_loop [] noises = Inr noises"
| "noises_loop (w # ws) noises =
     (case load_noise_sample w of
        Inl e \<Rightarrow> Inl e
      | Inr None \<Rightarrow> noises_loop ws noises
      | Inr (Some chunks) \<Rightarrow>
          (if chunks \<noteq> [] then noises_loop ws (noises @ chunks) else noises_loop ws noises))"

text \<open>
  A stacked tensor with its shape. \<open>tf.stack\<close> of an empty Python list is the empty
  constant of shape \<open>(0)\<close>; of a non-empty list of chunks of one length \<open>n\<close> (each of
  shape \<open>(n, 1)\<close>) it has shape \<open>(count, n, 1)\<close>; chunks of different lengths cannot
  be stacked.
\<close>

record tensor =
  shape :: "nat list"
  rows :: "real list list"

definition tf_stack :: "real list list \<Rightarrow> py_error + tensor" where
  "tf_stack values =
     (case values of
        [] \<Rightarrow> Inr \<lparr>shape = [0], rows = []\<rparr>
      | v # vs \<Rightarrow>
          (if list_all (\<lambda>u. length u = length v) vs
           then Inr \<lparr>shape = [length values, length v, 1], rows = values\<rparr>
           else Inl InvalidArgumentError))"

text \<open>\<open>t.shape[i]\<close> raises \<open>IndexError\<close> beyond the rank.\<close>

definition shape_at :: "tensor \<Rightarrow> nat \<Rightarrow> py_error + nat" where
  "shape_at t i = (if i < length (shape t) then Inr (shape t ! i) else Inl IndexError)"

text \<open>
  The cell that builds the pooled noise bank: the loop, the stack, and the report line,
  which reads \<open>noises.shape[0]\<close> and \<open>noises.shape[1]\<close>.
\<close>

definition noise_bank :: "wav list \<Rightarrow> py_error + tensor" where
  "noise_bank files =
     (case noises_loop files [] of
        Inl e \<Rightarrow> Inl e
      | Inr chunks \<Rightarrow>
          (case tf_stack chunks of
             Inl e \<Rightarrow> Inl e
           | Inr noises \<Rightarrow>
               (case shape_at noises 0 of
                  Inl e \<Rightarrow> Inl e
                | Inr d0 \<Rightarrow>
                    (case shape_at noises 1 of
                       Inl e \<Rightarrow> Inl e
                     | Inr d1 \<Rightarrow> Inr noises))))"

subsection \<open>Noise injection and spectral transform\<close>

text \<open>
  A computed sample is a finite real number or a non-finite floating-point value (an
  infinity or a NaN), written \<open>None\<close>. Arithmetic on a non-finite operand stays
  non-finite, and so does a division by zero (\<open>x / 0\<close> is an infinity or a NaN).
  The only infinity that can be an operand of the division below is the maximum of an
  empty row, and then the result has no samples.
\<close>

type_synonym f32 = "real option"

fun f32_mul :: "f32 \<Rightarrow> f32 \<Rightarrow> f32" where
  "f32_mul (Some x) (Some y) = Some (x * y)"
| "f32_mul _ _ = None"

fun f32_add :: "f32 \<Rightarrow> f32 \<Rightarrow> f32" where
  "f32_add (Some x) (Some y) = Some (x + y)"
| "f32_add _ _ = None"

fun f32_div :: "f32 \<Rightarrow> f32 \<Rightarrow> f32" where
  "f32_div (Some x) (Some y) = (if y = 0 then None else Some (x / y))"
| "f32_div _ _ = None"

text \<open>\<open>tf.math.reduce_max\<close> along a row: the largest sample, sign included.\<close>

fun reduce_max :: "real list \<Rightarrow> f32" where
  "reduce_max [] = None"
| "reduce_max (x # xs) = Some (fold max xs x)"

text \<open>Element-wise operation on two rows with broadcasting of a row of length one.\<close>

definition broadcast2 :: "('a \<Rightarrow> 'b \<Rightarrow> 'c) \<Rightarrow> 'a list \<Rightarrow> 'b list \<Rightarrow> py_error + 'c list" where
  "broadcast2 f xs ys =
     (if length xs = length ys then Inr (map2 f xs ys)
      else if length xs = 1 then Inr (map (f (hd xs)) ys)
      else if length ys = 1 then Inr (map (\<lambda>x. f x (hd ys)) xs)
      else Inl InvalidArgumentError)"

fun sequence_rows :: "(py_error + 'a) list \<Rightarrow> py_error + 'a list" where
  "sequence_rows [] = Inr []"
| "sequence_rows (r # rs) =
     (case r of
        Inl e \<Rightarrow> Inl e
      | Inr x \<Rightarrow> (case sequence_rows rs of Inl e \<Rightarrow> Inl e | Inr xs \<Rightarrow> Inr (x # xs)))"

text \<open>
  The body of \<open>add_noise\<close> for one waveform of the batch and the noise chunk gathered
  for it: \<open>prop\<close>, its repetition along the waveform, and
  \<open>audio + noise * prop * scale\<close>.
\<close>

definition amplitude_prop :: "real list \<Rightarrow> real list \<Rightarrow> f32" where
  "amplitude_prop audio noise = f32_div (reduce_max audio) (reduce_max noise)"

definition add_noise_row :: "real list \<Rightarrow> real list \<Rightarrow> real \<Rightarrow> py_error + f32 list" where
  "add_noise_row audio noise scale =
     (let prop = replicate (length audio) (amplitude_prop audio noise)
      in case broadcast2 (\<lambda>n p. f32_mul (f32_mul (Some n) p) (Some scale)) noise prop of
           Inl e \<Rightarrow> Inl e
         | Inr scaled \<Rightarrow> broadcast2 (\<lambda>a z. f32_add (Some a) z) audio scaled)"

text \<open>
  \<open>add_noise\<close>. The indices \<open>tf_rnd\<close> that \<open>tf.random.uniform\<close> draws are an
  argument: one index below the pool size for every waveform of the batch (a list that
  is not such a draw is rejected, as is a draw from an empty pool). \<open>tf.gather\<close>
  picks the chunks.
\<close>

definition add_noise ::
    "real list list \<Rightarrow> real list list option \<Rightarrow> real \<Rightarrow> nat list \<Rightarrow> py_error + f32 list list" where
  "add_noise audio noises scale tf_rnd =
     (case noises of
        None \<Rightarrow> Inr (map (map Some) audio)
      | Some pool \<Rightarrow>
          (if pool \<noteq> [] \<and> length tf_rnd = length audio
                \<and> list_all (\<lambda>i. i < length pool) tf_rnd
           then (let noise = map (\<lambda>i. pool ! i) tf_rnd
                 in sequence_rows (map2 (\<lambda>a n. add_noise_row a n scale) audio noise))
           else Inl InvalidArgumentError))"

text \<open>
  \<open>audio_to_fft\<close>: the discrete Fourier transform of each row (imaginary part of the
  input zero), of which the magnitudes of the first half of the bins are kept. A row
  with a non-finite sample has non-finite bins.
\<close>

definition dft_bin :: "real list \<Rightarrow> nat \<Rightarrow> complex" where
  "dft_bin xs k =
     sum_list (map (\<lambda>n. complex_of_real (xs ! n) *
                      cis (- (2 * pi * real k * real n / real (length xs))))
                [0..<length xs])"

definition audio_to_fft_row :: "f32 list \<Rightarrow> f32 list" where
  "audio_to_fft_row r =
     (if None \<in> set r then replicate (length r div 2) None
      else map (\<lambda>k. Some (cmod (dft_bin (map the r) k))) [0..<length r div 2])"

definition audio_to_fft :: "f32 list list \<Rightarrow> f32 list list" where
  "audio_to_fft audio = map audio_to_fft_row audio"

text \<open>
  What the \<open>map\<close> stages do to one batch \<open>(x, y)\<close> of each stream: the training
  stream maps \<open>add_noise\<close> with the noise bank and then \<open>audio_to_fft\<close>; the
  validation stream maps \<open>audio_to_fft\<close>.
\<close>

definition train_ds_map ::
    "real list list \<Rightarrow> nat list \<Rightarrow> real list list \<times> nat list
       \<Rightarrow> py_error + f32 list list \<times> nat list" where
  "train_ds_map noises tf_rnd xy =
     (case add_noise (fst xy) (Some noises) SCALE tf_rnd of
        Inl e \<Rightarrow> Inl e
      | Inr x \<Rightarrow> Inr (audio_to_fft x, snd xy))"

definition valid_ds_map :: "real list list \<times> nat list \<Rightarrow> f32 list list \<times> nat list" where
  "valid_ds_map xy = (audio_to_fft (map (map Some) (fst xy)), snd xy)"

text \<open>The peak absolute amplitude of a row, \<open>max(|row|)\<close>, in which the bound on the
  mixed signal is stated.\<close>

definition peak_abs :: "real list \<Rightarrow> f32" where
  "peak_abs row = reduce_max (map abs row)"

subsection \<open>Dataset generation: paths, labels, shuffle and split\<close>

text \<open>
  The loop over \<open>enumerate(class_names)\<close>, where \<open>class_names\<close> is the listing of the
  audio directory. \<open>os.listdir\<close> of an entry that is not a directory raises.
\<close>

fun dataset_loop ::
    "string \<Rightarrow> dir_entry list \<Rightarrow> nat \<Rightarrow> string list \<Rightarrow> nat list
       \<Rightarrow> py_error + string list \<times> nat list" where
  "dataset_loop audio_dir [] label audio_paths labels = Inr (audio_paths, labels)"
| "dataset_loop audio_dir (NotDir name # rest) label audio_paths labels =
     Inl NotADirectoryError"
| "dataset_loop audio_dir (SubDir name names # rest) label audio_paths labels =
     (let speaker_sample_paths = wav_paths (path_join audio_dir name) names
      in dataset_loop audio_dir rest (Suc label)
           (audio_paths @ speaker_sample_paths)
           (labels @ replicate (length speaker_sample_paths) label))"

text \<open>
  \<open>RandomState.shuffle\<close> on a Python list: for \<open>i\<close> from \<open>n - 1\<close> down to 1 it draws
  \<open>j\<close> in \<open>[0, i]\<close> from the generator and exchanges \<open>x[i]\<close> and \<open>x[j]\<close>. The
  generator is a parameter: \<open>rk_interval i g\<close> is the draw for the bound \<open>i\<close> in the
  state \<open>g\<close>, with the next state. The draw does not look at the list.
\<close>

definition swap_at :: "'a list \<Rightarrow> nat \<Rightarrow> nat \<Rightarrow> 'a list" where
  "swap_at x i j = x[i := x ! j, j := x ! i]"

fun shuffle_loop :: "(nat \<Rightarrow> 'g \<Rightarrow> nat \<times> 'g) \<Rightarrow> nat \<Rightarrow> 'g \<Rightarrow> 'a list \<Rightarrow> 'a list \<times> 'g" where
  "shuffle_loop rk_interval 0 g x = (x, g)"
| "shuffle_loop rk_interval (Suc i) g x =
     (case rk_interval (Suc i) g of
        (j, g') \<Rightarrow> shuffle_loop rk_interval i g' (swap_at x (Suc i) j))"

definition rng_shuffle :: "(nat \<Rightarrow> 'g \<Rightarrow> nat \<times> 'g) \<Rightarrow> 'g \<Rightarrow> 'a list \<Rightarrow> 'a list \<times> 'g" where
  "rng_shuffle rk_interval g x = shuffle_loop rk_interval (length x - 1) g x"

text \<open>
  The shuffle of the two lists, each with a generator made anew from \<open>SHUFFLE_SEED\<close>;
  \<open>random_state\<close> is \<open>np.random.RandomState\<close>, the state a seed gives.
\<close>

definition shuffle_paths_and_labels ::
    "(nat \<Rightarrow> 'g) \<Rightarrow> (nat \<Rightarrow> 'g \<Rightarrow> nat \<times> 'g) \<Rightarrow> string list \<times> nat list
       \<Rightarrow> string list \<times> nat list" where
  "shuffle_paths_and_labels random_state rk_interval pl =
     (let audio_paths = fst (rng_shuffle rk_interval (random_state SHUFFLE_SEED) (fst pl));
          labels = fst (rng_shuffle rk_interval (random_state SHUFFLE_SEED) (snd pl))
      in (audio_paths, labels))"

text \<open>
  \<open>int(r)\<close> truncates towards zero. \<open>x[:k]\<close> and \<open>x[k:]\<close> for an integer \<open>k\<close>: a
  negative \<open>k\<close> counts from the end, and the bounds are clipped to the list.
\<close>

definition py_int :: "real \<Rightarrow> int" where
  "py_int r = (if 0 \<le> r then \<lfloor>r\<rfloor> else \<lceil>r\<rceil>)"

definition slice_index :: "'a list \<Rightarrow> int \<Rightarrow> nat" where
  "slice_index x k = (if k < 0 then nat (max 0 (int (length x) + k)) else min (nat k) (length x))"

definition slice_to :: "'a list \<Rightarrow> int \<Rightarrow> 'a list" where
  "slice_to x k = take (slice_index x k) x"

definition slice_from :: "'a list \<Rightarrow> int \<Rightarrow> 'a list" where
  "slice_from x k = drop (slice_index x k) x"

text \<open>
  The split of one of the two shuffled lists into its training and validation parts;
  the fraction is the argument \<open>valid_split\<close>, which the cell takes from \<open>VALID_SPLIT\<close>.
\<close>

definition num_val_samples :: "real \<Rightarrow> 'a list \<Rightarrow> int" where
  "num_val_samples valid_split audio_paths = py_int (valid_split * real (length audio_paths))"

definition split_dataset :: "real \<Rightarrow> 'a list \<Rightarrow> 'a list \<times> 'a list" where
  "split_dataset valid_split x =
     (slice_to x (- num_val_samples valid_split x), slice_from x (- num_val_samples valid_split x))"

subsection \<open>Model definition\<close>
























subsection \<open>Callbacks and training\<close>

text \<open>
  The metrics the model reports at the end of an epoch (it is compiled with the metric
  \<open>accuracy\<close> and fitted with validation data), looked up by name as in the
  \<open>logs\<close> dictionary.
\<close>

record logs =
  loss :: real
  accuracy :: real
  val_loss :: real
  val_accuracy :: real

definition logs_get :: "logs \<Rightarrow> string \<Rightarrow> real option" where
  "logs_get l name =
     (if name = ''loss'' then Some (loss l)
      else if name = ''accuracy'' then Some (accuracy l)
      else if name = ''val_loss'' then Some (val_loss l)
      else if name = ''val_accuracy'' then Some (val_accuracy l)
      else None)"

text \<open>
  \<open>keras.callbacks.EarlyStopping\<close>, as the library defines it. \<open>EarlyStopping\<close> holds
  the defaults of its constructor, in which the monitored quantity is \<open>val_loss\<close>;
  \<open>earlystopping_cb\<close> is the callback of the notebook, which sets \<open>patience\<close> and
  \<open>restore_best_weights\<close> and nothing else. With the mode left automatic, an accuracy
  is better when larger and every other quantity when smaller.
\<close>

record early_stopping =
  monitor :: string
  min_delta :: real
  patience :: nat
  restore_best_weights :: bool

definition EarlyStopping :: early_stopping where
  "EarlyStopping =
     \<lparr>monitor = ''val_loss'', min_delta = 0, patience = 0, restore_best_weights = False\<rparr>"

definition earlystopping_cb :: early_stopping where
  "earlystopping_cb = EarlyStopping\<lparr>patience := 10, restore_best_weights := True\<rparr>"

definition monitor_is_max :: "string \<Rightarrow> bool" where
  "monitor_is_max name = (name = ''accuracy'' \<or> name = ''val_accuracy'')"

definition is_improvement :: "early_stopping \<Rightarrow> real \<Rightarrow> real option \<Rightarrow> bool" where
  "is_improvement cb monitor_value reference_value =
     (case reference_value of
        None \<Rightarrow> True
      | Some r \<Rightarrow>
          (if monitor_is_max (monitor cb) then r < monitor_value - \<bar>min_delta cb\<bar>
           else monitor_value + \<bar>min_delta cb\<bar> < r))"

text \<open>
  The state of the callback together with the flag \<open>stop_training\<close> of the model.
  The weights of the model are of any type \<open>'w\<close>.
\<close>

record 'w stopper =
  wait :: nat
  best :: "real option"
  best_weights :: "'w option"
  best_epoch :: nat
  stopped_epoch :: nat
  stop_training :: bool

definition on_train_begin :: "'w stopper" where
  "on_train_begin =
     \<lparr>wait = 0, best = None, best_weights = None, best_epoch = 0, stopped_epoch = 0,
      stop_training = False\<rparr>"

definition on_epoch_end :: "early_stopping \<Rightarrow> nat \<Rightarrow> logs \<Rightarrow> 'w \<Rightarrow> 'w stopper \<Rightarrow> 'w stopper" where
  "on_epoch_end cb epoch lg weights s =
     (case logs_get lg (monitor cb) of
        None \<Rightarrow> s
      | Some current \<Rightarrow>
          (let s1 = (if restore_best_weights cb \<and> best_weights s = None
                     then s\<lparr>best_weights := Some weights, best_epoch := epoch\<rparr> else s);
               s2 = s1\<lparr>wait := wait s1 + 1\<rparr>
           in if is_improvement cb current (best s2)
              then s2\<lparr>best := Some current, best_epoch := epoch,
                      best_weights := (if restore_best_weights cb then Some weights
                                       else best_weights s2),
                      wait := 0\<rparr>
              else if patience cb \<le> wait s2 \<and> 0 < epoch
                   then s2\<lparr>stopped_epoch := epoch, stop_training := True\<rparr>
                   else s2))"

text \<open>
  \<open>model.fit\<close> with the early-stopping callback. Training and validation are the
  library's: \<open>weights_after e\<close> are the weights at the end of epoch \<open>e\<close> (counted from
  0) and \<open>logs_after e\<close> the metrics reported then, for as long as training goes on. The
  loop runs \<open>epochs\<close> epochs and leaves as soon as \<open>stop_training\<close> is set; the second
  component counts the epochs run. The checkpoint callback, which monitors
  \<open>val_accuracy\<close>, writes the model to a file and changes neither the flag nor the
  weights of the model.
\<close>

fun fit_loop ::
    "early_stopping \<Rightarrow> (nat \<Rightarrow> 'w) \<Rightarrow> (nat \<Rightarrow> logs) \<Rightarrow> nat \<Rightarrow> nat \<Rightarrow> 'w stopper
       \<Rightarrow> 'w stopper \<times> nat" where
  "fit_loop cb weights_after logs_after 0 epoch s = (s, epoch)"
| "fit_loop cb weights_after logs_after (Suc remaining) epoch s =
     (let s' = on_epoch_end cb epoch (logs_after epoch) (weights_after epoch) s
      in if stop_training s' then (s', Suc epoch)
         else fit_loop cb weights_after logs_after remaining (Suc epoch) s')"

record 'w fit_result =
  final_weights :: 'w
  epochs_run :: nat
  early_stopped :: bool

text \<open>At the end of training the callback puts the best weights back, if it has any.\<close>

definition fit :: "early_stopping \<Rightarrow> 'w \<Rightarrow> (nat \<Rightarrow> 'w) \<Rightarrow> (nat \<Rightarrow> logs) \<Rightarrow> nat \<Rightarrow> 'w fit_result" where
  "fit cb initial_weights weights_after logs_after epochs =
     (case fit_loop cb weights_after logs_after epochs 0 on_train_begin of
        (s, n) \<Rightarrow>
          \<lparr>final_weights =
             (case (restore_best_weights cb, best_weights s) of
                (True, Some w) \<Rightarrow> w
              | _ \<Rightarrow> (if n = 0 then initial_weights else weights_after (n - 1))),
           epochs_run = n,
           early_stopped = stop_training s\<rparr>)"

section \<open>Properties\<close>

subsection \<open>Noise file discovery\<close>

lemma noise_paths_loop_length:
  "length (noise_paths_loop noise_dir entries acc) = length acc + length (listed_wavs entries)"
  by (induction noise_dir entries acc rule: noise_paths_loop.induct) (simp_all add: wav_paths_def)

text \<open>
  Claim C7. Noise-file discovery raises at initialisation exactly when no \<open>.wav\<close> file
  is found in the subdirectories of the noise directory; otherwise it raises nothing and
  returns the non-empty list of paths, one per file found.
\<close>

theorem find_noise_paths_fatal_iff:
  "(find_noise_paths noise_dir entries = Inl RuntimeError) = (listed_wavs entries = []) \<and>
   (listed_wavs entries = [] \<or>
      (\<exists>ps. find_noise_paths noise_dir entries = Inr ps \<and> ps \<noteq> [] \<and>
            length ps = length (listed_wavs entries)))"
proof -
  have len: "length (noise_paths_loop noise_dir entries []) = length (listed_wavs entries)"
    by (simp add: noise_paths_loop_length)
  show ?thesis
  proof (cases "listed_wavs entries = []")
    case True
    with len have "noise_paths_loop noise_dir entries [] = []" by simp
    with True show ?thesis by (simp add: find_noise_paths_def)
  next
    case False
    with len have "noise_paths_loop noise_dir entries [] \<noteq> []" by auto
    with False len show ?thesis by (simp add: find_noise_paths_def Let_def)
  qed
qed

subsection \<open>Noise preparation\<close>

lemma SAMPLING_RATE_pos: "0 < SAMPLING_RATE"
  by (simp add: SAMPLING_RATE_def)

lemma concat_pieces:
  "concat (map (\<lambda>i. take n (drop (i * n) xs)) [0..<k]) = take (k * n) xs"
proof (induction k)
  case 0
  show ?case by simp
next
  case (Suc k)
  have "take (k * n + n) xs = take (k * n) xs @ take n (drop (k * n) xs)"
    by (simp add: take_add)
  with Suc show ?case by (simp add: add.commute)
qed

lemma tf_split_whole:
  assumes "0 < k" and "length v = k * n"
  shows "tf_split v k = Inr (map (\<lambda>i. take n (drop (i * n) v)) [0..<k])"
  using assms by (simp add: tf_split_def)

lemma piece_length:
  assumes "i < k" and "k * n \<le> length xs"
  shows "length (take n (drop (i * n) xs)) = n"
proof -
  from assms(1) have "Suc i \<le> k" by simp
  then have "Suc i * n \<le> k * n" by (rule mult_le_mono1)
  with assms(2) have "i * n + n \<le> length xs" by simp
  then show ?thesis by simp
qed

lemma load_noise_sample_chunks:
  assumes rate: "sampling_rate w = SAMPLING_RATE"
    and long: "SAMPLING_RATE \<le> length (sample w)"
  shows "load_noise_sample w =
           Inr (Some (map (\<lambda>i. take SAMPLING_RATE (drop (i * SAMPLING_RATE) (sample w)))
                        [0..<length (sample w) div SAMPLING_RATE]))"
proof -
  define k where "k = length (sample w) div SAMPLING_RATE"
  define v where "v = take (k * SAMPLING_RATE) (sample w)"
  have kpos: "0 < k"
    using long SAMPLING_RATE_pos by (simp add: k_def div_greater_zero_iff)
  have le: "k * SAMPLING_RATE \<le> length (sample w)"
    by (simp add: k_def)
  then have len: "length v = k * SAMPLING_RATE"
    by (simp add: v_def)
  have same: "take SAMPLING_RATE (drop (i * SAMPLING_RATE) v) =
              take SAMPLING_RATE (drop (i * SAMPLING_RATE) (sample w))" if "i < k" for i
  proof -
    from that have "Suc i \<le> k" by simp
    then have "Suc i * SAMPLING_RATE \<le> k * SAMPLING_RATE" by (rule mult_le_mono1)
    then have "i * SAMPLING_RATE + SAMPLING_RATE \<le> k * SAMPLING_RATE" by simp
    then show ?thesis
      by (simp add: v_def drop_take min_def)
  qed
  have "tf_split v k = Inr (map (\<lambda>i. take SAMPLING_RATE (drop (i * SAMPLING_RATE) v)) [0..<k])"
    using kpos len by (rule tf_split_whole)
  also have "map (\<lambda>i. take SAMPLING_RATE (drop (i * SAMPLING_RATE) v)) [0..<k] =
             map (\<lambda>i. take SAMPLING_RATE (drop (i * SAMPLING_RATE) (sample w))) [0..<k]"
    using same by simp
  finally show ?thesis
    using rate by (simp add: load_noise_sample_def Let_def k_def v_def)
qed

lemma load_noise_sample_short:
  assumes "sampling_rate w = SAMPLING_RATE" and "length (sample w) < SAMPLING_RATE"
  shows "load_noise_sample w = Inl InvalidArgumentError"
  using assms by (simp add: load_noise_sample_def tf_split_def)

lemma load_noise_sample_mismatch:
  assumes "sampling_rate w \<noteq> SAMPLING_RATE"
  shows "load_noise_sample w = Inr None"
  using assms by (simp add: load_noise_sample_def)

text \<open>
  Claim C6, as amended. For every noise source at the target rate that holds at least
  one chunk of samples, chunking emits exactly \<open>length div SAMPLING_RATE\<close> chunks, each
  of length \<open>SAMPLING_RATE\<close>, and their concatenation in order is the prefix of the
  source of that many whole chunks; the shorter tail is dropped.
\<close>

theorem load_noise_sample_slices:
  assumes "sampling_rate w = SAMPLING_RATE"
    and "SAMPLING_RATE \<le> length (sample w)"
  shows "\<exists>chunks. load_noise_sample w = Inr (Some chunks) \<and>
           length chunks = length (sample w) div SAMPLING_RATE \<and>
           list_all (\<lambda>c. length c = SAMPLING_RATE) chunks \<and>
           concat chunks =
             take (length (sample w) div SAMPLING_RATE * SAMPLING_RATE) (sample w)"
proof -
  let ?k = "length (sample w) div SAMPLING_RATE"
  let ?chunks = "map (\<lambda>i. take SAMPLING_RATE (drop (i * SAMPLING_RATE) (sample w))) [0..<?k]"
  have le: "?k * SAMPLING_RATE \<le> length (sample w)" by simp
  have "load_noise_sample w = Inr (Some ?chunks)"
    using assms by (rule load_noise_sample_chunks)
  moreover have "length ?chunks = ?k" by simp
  moreover have "list_all (\<lambda>c. length c = SAMPLING_RATE) ?chunks"
    using piece_length [OF _ le] by (simp add: list_all_iff)
  moreover have "concat ?chunks = take (?k * SAMPLING_RATE) (sample w)"
    by (rule concat_pieces)
  ultimately show ?thesis by blast
qed

theorem load_noise_sample_slices_witness:
  "\<exists>chunks. load_noise_sample \<lparr>sample = replicate 96000 0, sampling_rate = 16000\<rparr>
             = Inr (Some chunks) \<and>
           length chunks = 6 \<and>
           list_all (\<lambda>c. length c = 16000) chunks \<and>
           concat chunks = replicate 96000 0"
  using load_noise_sample_slices [of "\<lparr>sample = replicate 96000 0, sampling_rate = 16000\<rparr>"]
  by (simp add: SAMPLING_RATE_def)

text \<open>
  A source at the target rate that is shorter than one chunk: zero slices, and the split
  into zero pieces raises instead of returning no chunks.
\<close>

theorem load_noise_sample_short_counterexample:
  "sampling_rate \<lparr>sample = [1 / 2, 1 / 4, 0], sampling_rate = 16000\<rparr> = SAMPLING_RATE \<and>
   length (sample \<lparr>sample = [1 / 2, 1 / 4, 0], sampling_rate = 16000\<rparr>) div SAMPLING_RATE = 0 \<and>
   load_noise_sample \<lparr>sample = [1 / 2, 1 / 4, 0], sampling_rate = 16000\<rparr>
     = Inl InvalidArgumentError"
  by (simp add: load_noise_sample_def tf_split_def SAMPLING_RATE_def)

lemma load_noise_sample_Some:
  assumes "load_noise_sample w = Inr (Some chunks)"
  shows "sampling_rate w = SAMPLING_RATE \<and> SAMPLING_RATE \<le> length (sample w)"
proof -
  have rate: "sampling_rate w = SAMPLING_RATE"
  proof (rule ccontr)
    assume "sampling_rate w \<noteq> SAMPLING_RATE"
    then have "load_noise_sample w = Inr None" by (rule load_noise_sample_mismatch)
    with assms show False by simp
  qed
  have "\<not> length (sample w) < SAMPLING_RATE"
  proof
    assume "length (sample w) < SAMPLING_RATE"
    with rate have "load_noise_sample w = Inl InvalidArgumentError"
      by (rule load_noise_sample_short)
    with assms show False by simp
  qed
  with rate show ?thesis by simp
qed

lemma noises_loop_all_mismatch:
  "list_all (\<lambda>w. sampling_rate w \<noteq> SAMPLING_RATE) files \<Longrightarrow> noises_loop files acc = Inr acc"
  by (induction files arbitrary: acc) (simp_all add: load_noise_sample_mismatch)

lemma noises_loop_contributes:
  "noises_loop files acc = Inr chunks \<Longrightarrow> chunks \<noteq> acc \<Longrightarrow>
   list_ex (\<lambda>w. sampling_rate w = SAMPLING_RATE \<and> SAMPLING_RATE \<le> length (sample w)) files"
proof (induction files arbitrary: acc)
  case Nil
  then show ?case by simp
next
  case (Cons w ws)
  show ?case
  proof (cases "load_noise_sample w")
    case (Inl e)
    with Cons.prems show ?thesis by simp
  next
    case (Inr r)
    show ?thesis
    proof (cases r)
      case None
      with Inr Cons.prems have "noises_loop ws acc = Inr chunks" by simp
      from Cons.IH [OF this Cons.prems(2)] show ?thesis by simp
    next
      case (Some cs)
      with Inr have "load_noise_sample w = Inr (Some cs)" by simp
      then have "sampling_rate w = SAMPLING_RATE \<and> SAMPLING_RATE \<le> length (sample w)"
        by (rule load_noise_sample_Some)
      then show ?thesis by simp
    qed
  qed
qed

lemma tf_stack_rows:
  "tf_stack values = Inr t \<Longrightarrow> rows t = values \<and> (values = [] \<longrightarrow> shape t = [0])"
  by (auto simp: tf_stack_def split: list.splits if_splits)

text \<open>
  Claim C10, as amended. When noise files were discovered but every one of them is
  skipped for its sampling rate, the chunk list is empty, the stack of the empty list
  is the empty tensor of rank one, and the cell that builds the pooled noise bank raises
  at its report line, which reads the second dimension, instead of going on with an
  empty pool; when the cell does not raise, the pool is not empty and at least one file
  at the target rate contributed chunks.
\<close>

theorem noise_bank_needs_chunks:
  "(files \<noteq> [] \<and> list_all (\<lambda>w. sampling_rate w \<noteq> SAMPLING_RATE) files
      \<longrightarrow> noises_loop files [] = Inr [] \<and>
          tf_stack [] = Inr \<lparr>shape = [0], rows = []\<rparr> \<and>
          noise_bank files = Inl IndexError) \<and>
   (\<forall>noises. noise_bank files = Inr noises \<longrightarrow>
      rows noises \<noteq> [] \<and>
      list_ex (\<lambda>w. sampling_rate w = SAMPLING_RATE \<and> SAMPLING_RATE \<le> length (sample w))
        files)"
proof (intro conjI impI allI)
  assume "files \<noteq> [] \<and> list_all (\<lambda>w. sampling_rate w \<noteq> SAMPLING_RATE) files"
  then have "noises_loop files [] = Inr []"
    by (simp add: noises_loop_all_mismatch)
  then show "noises_loop files [] = Inr []"
    and "noise_bank files = Inl IndexError"
    by (simp_all add: noise_bank_def tf_stack_def shape_at_def)
  show "tf_stack [] = Inr \<lparr>shape = [0], rows = []\<rparr>"
    by (simp add: tf_stack_def)
next
  fix noises
  assume ok: "noise_bank files = Inr noises"
  then obtain chunks where loop: "noises_loop files [] = Inr chunks"
    by (cases "noises_loop files []") (simp_all add: noise_bank_def)
  with ok obtain t where stack: "tf_stack chunks = Inr t"
    by (cases "tf_stack chunks") (simp_all add: noise_bank_def)
  from ok loop stack have t: "t = noises" and rank: "1 < length (shape t)"
    by (auto simp: noise_bank_def shape_at_def split: if_splits)
  from stack have rows: "rows t = chunks" and empty: "chunks = [] \<longrightarrow> shape t = [0]"
    using tf_stack_rows by blast+
  from rank empty have ne: "chunks \<noteq> []" by auto
  with rows t show "rows noises \<noteq> []" by simp
  from loop ne
  show "list_ex (\<lambda>w. sampling_rate w = SAMPLING_RATE \<and> SAMPLING_RATE \<le> length (sample w)) files"
    by (rule noises_loop_contributes)
qed

theorem noise_bank_needs_chunks_witness:
  "noise_bank [\<lparr>sample = [0, 1 / 2], sampling_rate = 8000\<rparr>] = Inl IndexError \<and>
   noise_bank [\<lparr>sample = replicate 16000 (1 / 2), sampling_rate = 16000\<rparr>]
     = Inr \<lparr>shape = [1, 16000, 1], rows = [replicate 16000 (1 / 2)]\<rparr> \<and>
   rows \<lparr>shape = [1, 16000, 1], rows = [replicate 16000 (1 / 2 :: real)]\<rparr> \<noteq> []"
proof -
  have a: "noise_bank [\<lparr>sample = [0, 1 / 2], sampling_rate = 8000\<rparr>] = Inl IndexError"
    using noise_bank_needs_chunks [of "[\<lparr>sample = [0, 1 / 2], sampling_rate = 8000\<rparr>]"]
    by (simp add: SAMPLING_RATE_def)
  have "load_noise_sample \<lparr>sample = replicate 16000 (1 / 2), sampling_rate = 16000\<rparr>
          = Inr (Some [replicate 16000 (1 / 2)])"
    by (simp add: load_noise_sample_def tf_split_def SAMPLING_RATE_def)
  then have b: "noise_bank [\<lparr>sample = replicate 16000 (1 / 2), sampling_rate = 16000\<rparr>]
     = Inr \<lparr>shape = [1, 16000, 1], rows = [replicate 16000 (1 / 2)]\<rparr>"
    by (simp add: noise_bank_def tf_stack_def shape_at_def)
  from a b show ?thesis
    using noise_bank_needs_chunks
      [of "[\<lparr>sample = replicate 16000 (1 / 2), sampling_rate = 16000\<rparr>]"]
    by simp
qed

text \<open>
  One discovered file, at another sampling rate: the chunk list is empty and stacking
  it does not raise; it is the read of the second dimension of the result that does.
\<close>

theorem noise_bank_stack_counterexample:
  "noises_loop [\<lparr>sample = [0, 1 / 2], sampling_rate = 8000\<rparr>] [] = Inr [] \<and>
   tf_stack [] = Inr \<lparr>shape = [0], rows = []\<rparr> \<and>
   shape_at \<lparr>shape = [0], rows = []\<rparr> 0 = Inr 0 \<and>
   shape_at \<lparr>shape = [0], rows = []\<rparr> 1 = Inl IndexError"
  by (simp add: load_noise_sample_def SAMPLING_RATE_def tf_stack_def shape_at_def)

subsection \<open>Noise injection\<close>

lemma funpow_max:
  "(max (y::real) ^^ n) x = (if n = 0 then x else max y x)"
  by (induction n arbitrary: x) (auto simp: max_def funpow_swap1)

lemma add_noise_row_skewed:
  "add_noise_row (1 # replicate n 0) ((1 / 4) # replicate n (- 1)) (1 / 2)
     = Inr (Some (3 / 2) # replicate n (Some (- 2)))"
  by (simp add: add_noise_row_def amplitude_prop_def broadcast2_def funpow_max)

lemma add_noise_skewed:
  "add_noise [1 # replicate n 0] (Some [(1 / 4) # replicate n (- 1)]) (1 / 2) [0]
     = Inr [Some (3 / 2) # replicate n (Some (- 2))]"
  by (simp add: add_noise_def add_noise_row_skewed)

lemma peaks_skewed:
  "0 < n \<Longrightarrow> peak_abs (1 # replicate n 0) = Some 1 \<and>
   peak_abs ((1 / 4) # replicate n (- 1)) = Some 1 \<and>
   peak_abs ((3 / 2) # replicate n (- 2)) = Some 2 \<and>
   amplitude_prop (1 # replicate n 0) ((1 / 4) # replicate n (- 1)) = Some 4"
  by (simp add: peak_abs_def amplitude_prop_def funpow_max)

text \<open>
  Claim C1, at a batch of one waveform of 16000 samples whose largest sample is 1 and a
  noise chunk whose largest sample is \<open>1/4\<close> while its peak absolute amplitude is 1.
  \<open>add_noise\<close> takes the ratio of the largest samples, 4, where the ratio of the peak
  absolute amplitudes is 1, and the mixed signal peaks at 2, above
  \<open>max(|W|) + scale * max(|W|) = 3/2\<close>.
\<close>

theorem add_noise_signed_maximum:
  "add_noise [1 # replicate 15999 0] (Some [(1 / 4) # replicate 15999 (- 1)]) (1 / 2) [0]
     = Inr [Some (3 / 2) # replicate 15999 (Some (- 2))] \<and>
   amplitude_prop (1 # replicate 15999 0) ((1 / 4) # replicate 15999 (- 1)) = Some 4 \<and>
   f32_div (peak_abs (1 # replicate 15999 0)) (peak_abs ((1 / 4) # replicate 15999 (- 1)))
     = Some 1 \<and>
   peak_abs ((3 / 2) # replicate 15999 (- 2)) = Some 2 \<and>
   f32_add (peak_abs (1 # replicate 15999 0))
     (f32_mul (Some (1 / 2)) (peak_abs (1 # replicate 15999 0))) = Some (3 / 2)"
  using peaks_skewed [of 15999] by (simp add: add_noise_skewed)

lemma map2_replicate_right:
  "length xs = k \<Longrightarrow> map2 f xs (replicate k c) = map (\<lambda>x. f x c) xs"
  by (induction xs arbitrary: k) auto

lemma add_noise_row_zero:
  assumes "length a = length n" and "a \<noteq> []" and "reduce_max n = Some 0"
  shows "amplitude_prop a n = None \<and> add_noise_row a n scale = Inr (replicate (length a) None)"
proof -
  from assms(2) obtain x xs where a: "a = x # xs" by (cases a) auto
  then have p: "amplitude_prop a n = None"
    using assms(3) by (simp add: amplitude_prop_def)
  have s: "map2 (\<lambda>n p. f32_mul (f32_mul (Some n) p) (Some scale)) n (replicate (length n) None)
          = replicate (length n) None"
    by (simp add: map2_replicate_right map_replicate_const)
  have "map2 (\<lambda>a z. f32_add (Some a) z) a (replicate (length a) None)
          = replicate (length a) None"
    by (simp add: map2_replicate_right map_replicate_const)
  with s p assms(1) show ?thesis
    by (simp add: add_noise_row_def broadcast2_def)
qed

lemma add_noise_row_nonzero:
  assumes "length a = length n" and "a \<noteq> []" and "reduce_max n \<noteq> Some 0"
  shows "\<exists>p. amplitude_prop a n = Some p \<and>
           add_noise_row a n scale = Inr (map2 (\<lambda>u v. Some (u + v * p * scale)) a n)"
proof -
  from assms(2) obtain x xs where a: "a = x # xs" by (cases a) auto
  with assms(1) obtain y ys where n: "n = y # ys" by (cases n) auto
  define p where "p = fold max xs x / fold max ys y"
  from assms(3) have nz: "fold max ys y \<noteq> 0" by (simp add: n)
  then have pv: "amplitude_prop a n = Some p"
    by (simp add: amplitude_prop_def a n p_def)
  have s: "map2 (\<lambda>n q. f32_mul (f32_mul (Some n) q) (Some scale)) n (replicate (length n) (Some p))
          = map (\<lambda>v. Some (v * p * scale)) n"
    by (simp add: map2_replicate_right)
  have "map2 (\<lambda>a z. f32_add (Some a) z) a (map (\<lambda>v. Some (v * p * scale)) n)
          = map2 (\<lambda>u v. Some (u + v * p * scale)) a n"
    by (auto simp: zip_map2)
  with s pv assms(1) have "add_noise_row a n scale = Inr (map2 (\<lambda>u v. Some (u + v * p * scale)) a n)"
    by (simp add: add_noise_row_def broadcast2_def)
  with pv show ?thesis by blast
qed

lemma map2_Some_finite: "None \<notin> set (map2 (\<lambda>u v. Some (f u v)) a n)"
  by (auto simp: in_set_zip)

lemma sequence_rows_map2:
  assumes "length xs = length ys"
    and "list_all (\<lambda>(x, y). \<exists>r. f x y = Inr r) (zip xs ys)"
  shows "\<exists>rs. sequence_rows (map2 f xs ys) = Inr rs \<and> length rs = length xs \<and>
           (\<forall>b<length xs. f (xs ! b) (ys ! b) = Inr (rs ! b))"
  using assms
proof (induction xs ys rule: list_induct2)
  case Nil
  show ?case by simp
next
  case (Cons x xs y ys)
  then obtain r where r: "f x y = Inr r" by auto
  from Cons obtain rs where rs: "sequence_rows (map2 f xs ys) = Inr rs"
    "length rs = length xs" "\<forall>b<length xs. f (xs ! b) (ys ! b) = Inr (rs ! b)"
    by auto
  have "\<forall>b<length (x # xs). f ((x # xs) ! b) ((y # ys) ! b) = Inr ((r # rs) ! b)"
    using r rs(3) by (auto simp: nth_Cons split: nat.splits)
  with r rs(1,2) show ?case by simp
qed

text \<open>
  Claim C9, as amended. \<open>add_noise\<close> divides by the largest sample of the noise chunk
  gathered for each waveform, with no guard. On a batch and a pool of rows of one
  positive length, with one valid index drawn per waveform, it returns a mixed batch in
  which a waveform paired with a chunk whose largest sample is zero has a non-finite
  \<open>prop\<close> and only non-finite samples, and every other waveform has a finite \<open>prop\<close>
  and only finite samples: the division is defined exactly where the largest sample of
  the chunk is not zero.
\<close>

theorem add_noise_division:
  assumes shape_a: "list_all (\<lambda>a. length a = L) audio"
    and shape_n: "list_all (\<lambda>n. length n = L) pool"
    and L: "0 < L"
    and pool: "pool \<noteq> []"
    and len: "length tf_rnd = length audio"
    and draw: "list_all (\<lambda>i. i < length pool) tf_rnd"
  shows "\<exists>mixed. add_noise audio (Some pool) scale tf_rnd = Inr mixed \<and>
           length mixed = length audio \<and>
           (\<forall>b<length audio.
              if reduce_max (pool ! (tf_rnd ! b)) = Some 0
              then amplitude_prop (audio ! b) (pool ! (tf_rnd ! b)) = None \<and>
                   mixed ! b = replicate L None
              else amplitude_prop (audio ! b) (pool ! (tf_rnd ! b)) \<noteq> None \<and>
                   length (mixed ! b) = L \<and> None \<notin> set (mixed ! b))"
proof -
  define noise where "noise = map (\<lambda>i. pool ! i) tf_rnd"
  have ln: "length audio = length noise"
    by (simp add: noise_def len)
  have a: "length (audio ! b) = L" if "b < length audio" for b
    using shape_a that by (simp add: list_all_length)
  have n: "length (noise ! b) = L" if "b < length audio" for b
    using shape_n draw that len by (simp add: list_all_length noise_def)
  have row: "\<exists>r. add_noise_row x y scale = Inr r" if "length x = L" "length y = L" for x y
  proof (cases "reduce_max y = Some 0")
    case True
    with that L add_noise_row_zero [of x y scale] show ?thesis by auto
  next
    case False
    with that L add_noise_row_nonzero [of x y scale] show ?thesis by auto
  qed
  have "list_all (\<lambda>(x, y). \<exists>r. add_noise_row x y scale = Inr r) (zip audio noise)"
    using a n ln row by (simp add: list_all_length)
  with ln obtain mixed where
    m: "sequence_rows (map2 (\<lambda>a n. add_noise_row a n scale) audio noise) = Inr mixed"
    and lm: "length mixed = length audio"
    and rows: "\<forall>b<length audio. add_noise_row (audio ! b) (noise ! b) scale = Inr (mixed ! b)"
    using sequence_rows_map2 [of audio noise "\<lambda>a n. add_noise_row a n scale"] by blast
  have res: "add_noise audio (Some pool) scale tf_rnd = Inr mixed"
    using pool len draw m by (simp add: add_noise_def noise_def)
  have "if reduce_max (pool ! (tf_rnd ! b)) = Some 0
        then amplitude_prop (audio ! b) (pool ! (tf_rnd ! b)) = None \<and>
             mixed ! b = replicate L None
        else amplitude_prop (audio ! b) (pool ! (tf_rnd ! b)) \<noteq> None \<and>
             length (mixed ! b) = L \<and> None \<notin> set (mixed ! b)"
    if b: "b < length audio" for b
  proof -
    have nb: "noise ! b = pool ! (tf_rnd ! b)"
      using b len by (simp add: noise_def)
    have la: "length (audio ! b) = length (noise ! b)" and ne: "audio ! b \<noteq> []"
      using a [OF b] n [OF b] L by auto
    from rows b have r: "add_noise_row (audio ! b) (noise ! b) scale = Inr (mixed ! b)"
      by simp
    show ?thesis
    proof (cases "reduce_max (noise ! b) = Some 0")
      case True
      from add_noise_row_zero [OF la ne True, of scale] r a [OF b] True nb
      show ?thesis by simp
    next
      case False
      from add_noise_row_nonzero [OF la ne False, of scale] obtain p where
        p: "amplitude_prop (audio ! b) (noise ! b) = Some p"
        and e: "add_noise_row (audio ! b) (noise ! b) scale =
                  Inr (map2 (\<lambda>u v. Some (u + v * p * scale)) (audio ! b) (noise ! b))"
        by blast
      from e r have "mixed ! b = map2 (\<lambda>u v. Some (u + v * p * scale)) (audio ! b) (noise ! b)"
        by simp
      then have "length (mixed ! b) = L \<and> None \<notin> set (mixed ! b)"
        using map2_Some_finite [of "\<lambda>u v. u + v * p * scale" "audio ! b" "noise ! b"]
          a [OF b] n [OF b] by simp
      with p False nb show ?thesis by simp
    qed
  qed
  with res lm show ?thesis by blast
qed

theorem add_noise_division_witness:
  "add_noise [[1, 0], [1 / 2, - 1 / 2]] (Some [[0, - 1], [1 / 4, - 1 / 4]]) (1 / 2) [0, 1]
     = Inr [[None, None], [Some (3 / 4), Some (- 3 / 4)]] \<and>
   reduce_max [0, - 1] = Some 0 \<and> reduce_max [1 / 4, - 1 / 4] = Some (1 / 4)"
  using add_noise_division
    [of 2 "[[1, 0], [1 / 2, - 1 / 2]]" "[[0, - 1], [1 / 4, - 1 / 4]]" "[0, 1]" "1 / 2"]
  by (simp add: add_noise_def add_noise_row_def amplitude_prop_def broadcast2_def)

text \<open>
  A pooled chunk whose largest sample is negative, not strictly positive: the
  division is defined and the mixed waveform is finite.
\<close>

theorem add_noise_negative_maximum_counterexample:
  "reduce_max [- 1 / 2, - 1] = Some (- 1 / 2) \<and>
   amplitude_prop [1, 0] [- 1 / 2, - 1] = Some (- 2) \<and>
   add_noise [[1, 0]] (Some [[- 1 / 2, - 1]]) (1 / 2) [0] = Inr [[Some (3 / 2), Some 1]]"
  by (simp add: add_noise_def add_noise_row_def amplitude_prop_def broadcast2_def)

subsection \<open>The two streams\<close>

text \<open>
  Claim C3, as amended. A batch of the validation stream goes through the spectral
  transform only: its features are those of the waveforms as decoded, which is what
  \<open>add_noise\<close> returns when it is given no noise. Noise injection before the
  transform is what the training stream does.
\<close>

theorem valid_ds_map_without_noise:
  "Inr (valid_ds_map (x, y)) =
     map_sum id (\<lambda>x'. (audio_to_fft x', y)) (add_noise x None scale tf_rnd) \<and>
   train_ds_map noises tf_rnd' (x, y) =
     map_sum id (\<lambda>x'. (audio_to_fft x', y)) (add_noise x (Some noises) SCALE tf_rnd')"
  by (simp add: valid_ds_map_def train_ds_map_def add_noise_def split: sum.splits)

lemma dft_bin_pair_0: "dft_bin [a, b] 0 = complex_of_real (a + b)"
  by (simp add: dft_bin_def)

text \<open>
  A validation batch of one waveform \<open>[1, 1]\<close>: its feature is 2, the magnitude of the
  first bin of the clean waveform, where the same batch with noise injected from the
  pool \<open>[[1, 1]]\<close> has the feature 3.
\<close>

theorem valid_ds_map_counterexample:
  "valid_ds_map ([[1, 1]], [0]) = ([[Some 2]], [0]) \<and>
   train_ds_map [[1, 1]] [0] ([[1, 1]], [0]) = Inr ([[Some 3]], [0]) \<and>
   Inr (valid_ds_map ([[1, 1]], [0])) \<noteq> train_ds_map [[1, 1]] [0] ([[1, 1]], [0])"
proof -
  have n: "add_noise [[1, 1]] (Some [[1, 1]]) SCALE [0] = Inr [[Some (3 / 2), Some (3 / 2)]]"
    by (simp add: add_noise_def add_noise_row_def amplitude_prop_def broadcast2_def SCALE_def)
  have v: "valid_ds_map ([[1, 1]], [0]) = ([[Some 2]], [0])"
    by (simp add: valid_ds_map_def audio_to_fft_def audio_to_fft_row_def dft_bin_pair_0)
  have t: "train_ds_map [[1, 1]] [0] ([[1, 1]], [0]) = Inr ([[Some 3]], [0])"
    by (simp add: train_ds_map_def n audio_to_fft_def audio_to_fft_row_def dft_bin_pair_0)
  from v t show ?thesis by simp
qed

subsection \<open>Split\<close>

lemma split_dataset_eq:
  assumes "0 < num_val_samples v x" and "num_val_samples v x \<le> int (length x)"
  shows "split_dataset v x =
           (take (length x - nat (num_val_samples v x)) x,
            drop (length x - nat (num_val_samples v x)) x)"
proof -
  from assms have "slice_index x (- num_val_samples v x) = length x - nat (num_val_samples v x)"
    by (simp add: slice_index_def nat_diff_distrib')
  then show ?thesis
    by (simp add: split_dataset_def slice_to_def slice_from_def)
qed

lemma split_dataset_sizes:
  assumes "0 < num_val_samples v x" and "num_val_samples v x \<le> int (length x)"
  shows "length (fst (split_dataset v x)) + length (snd (split_dataset v x)) = length x \<and>
         int (length (snd (split_dataset v x))) = num_val_samples v x \<and>
         fst (split_dataset v x) @ snd (split_dataset v x) = x"
  using assms by (auto simp add: split_dataset_eq)

lemma split_dataset_7500:
  assumes "length x = 7500"
  shows "length (fst (split_dataset VALID_SPLIT x)) = 6750 \<and>
         length (snd (split_dataset VALID_SPLIT x)) = 750"
proof -
  have nv: "num_val_samples VALID_SPLIT x = 750"
    using assms by (simp add: num_val_samples_def VALID_SPLIT_def py_int_def)
  with assms split_dataset_eq [of VALID_SPLIT x] show ?thesis by simp
qed

text \<open>
  Claim C4, at a collection of five clips with the fraction \<open>VALID_SPLIT\<close>. The number
  of validation samples is \<open>int(0.1 * 5) = 0\<close>, and the slices \<open>[:-0]\<close> and \<open>[-0:]\<close>
  are \<open>[:0]\<close> and \<open>[0:]\<close>: the training part is empty and the validation part holds
  all five clips, where the claim has five training clips and no validation clip. With
  at least one and at most all clips for validation the sizes are as claimed
  (\<open>split_dataset_sizes\<close>), as for 7500 clips (\<open>split_dataset_7500\<close>).
\<close>

theorem split_dataset_zero_validation:
  "num_val_samples VALID_SPLIT [''a.wav'', ''b.wav'', ''c.wav'', ''d.wav'', ''e.wav''] = 0 \<and>
   split_dataset VALID_SPLIT [''a.wav'', ''b.wav'', ''c.wav'', ''d.wav'', ''e.wav'']
     = ([], [''a.wav'', ''b.wav'', ''c.wav'', ''d.wav'', ''e.wav''])"
  by (simp add: split_dataset_def num_val_samples_def VALID_SPLIT_def py_int_def
      slice_to_def slice_from_def slice_index_def)

subsection \<open>Shuffle\<close>

lemma dataset_loop_lengths:
  "dataset_loop d entries label ps ls = Inr (ps', ls') \<Longrightarrow> length ps = length ls \<Longrightarrow>
   length ps' = length ls'"
  by (induction d entries label ps ls rule: dataset_loop.induct) (auto simp: Let_def)

lemma swap_at_map:
  "i < length x \<Longrightarrow> j < length x \<Longrightarrow> swap_at (map f x) i j = map f (swap_at x i j)"
  by (simp add: swap_at_def map_update)

lemma length_swap_at: "length (swap_at x i j) = length x"
  by (simp add: swap_at_def)

lemma mset_swap_at:
  "i < length x \<Longrightarrow> j < length x \<Longrightarrow> mset (swap_at x i j) = mset x"
  unfolding swap_at_def by (rule mset_swap)

lemma shuffle_loop_map:
  assumes range: "\<And>i g. fst (rk i g) \<le> i"
  shows "i < length x \<Longrightarrow>
         shuffle_loop rk i g (map f x) = map_prod (map f) id (shuffle_loop rk i g x)"
proof (induction i arbitrary: g x)
  case 0
  show ?case by simp
next
  case (Suc i)
  obtain j g' where d: "rk (Suc i) g = (j, g')" by (cases "rk (Suc i) g")
  with range [of "Suc i" g] have j: "j \<le> Suc i" by simp
  with Suc.prems have jl: "j < length x" by simp
  have "i < length (swap_at x (Suc i) j)"
    using Suc.prems by (simp add: length_swap_at)
  from Suc.IH [OF this] d show ?case
    by (simp add: swap_at_map [OF Suc.prems jl])
qed

lemma shuffle_loop_mset:
  assumes range: "\<And>i g. fst (rk i g) \<le> i"
  shows "i < length x \<Longrightarrow> mset (fst (shuffle_loop rk i g x)) = mset x"
proof (induction i arbitrary: g x)
  case 0
  show ?case by simp
next
  case (Suc i)
  obtain j g' where d: "rk (Suc i) g = (j, g')" by (cases "rk (Suc i) g")
  with range [of "Suc i" g] have j: "j \<le> Suc i" by simp
  with Suc.prems have jl: "j < length x" by simp
  have "i < length (swap_at x (Suc i) j)"
    using Suc.prems by (simp add: length_swap_at)
  from Suc.IH [OF this] d show ?case
    by (simp add: mset_swap_at [OF Suc.prems jl])
qed

lemma rng_shuffle_map:
  assumes "\<And>i g. fst (rk i g) \<le> i"
  shows "fst (rng_shuffle rk g (map f x)) = map f (fst (rng_shuffle rk g x))"
proof (cases "x = []")
  case True
  then show ?thesis by (simp add: rng_shuffle_def)
next
  case False
  then have "length x - 1 < length x" by simp
  from shuffle_loop_map [of rk "length x - 1" x g f, OF assms this]
  show ?thesis by (simp add: rng_shuffle_def)
qed

lemma rng_shuffle_mset:
  assumes "\<And>i g. fst (rk i g) \<le> i"
  shows "mset (fst (rng_shuffle rk g x)) = mset x"
proof (cases "x = []")
  case True
  then show ?thesis by (simp add: rng_shuffle_def)
next
  case False
  then have "length x - 1 < length x" by simp
  from shuffle_loop_mset [of rk "length x - 1" x g, OF assms this]
  show ?thesis by (simp add: rng_shuffle_def)
qed

lemma rng_shuffle_indices:
  assumes "\<And>i g. fst (rk i g) \<le> i"
  shows "fst (rng_shuffle rk g x) = map (\<lambda>k. x ! k) (fst (rng_shuffle rk g [0..<length x]))"
proof -
  have "x = map (\<lambda>k. x ! k) [0..<length x]" by (simp add: map_nth)
  then have "fst (rng_shuffle rk g x) = fst (rng_shuffle rk g (map (\<lambda>k. x ! k) [0..<length x]))"
    by simp
  also have "\<dots> = map (\<lambda>k. x ! k) (fst (rng_shuffle rk g [0..<length x]))"
    using assms by (rule rng_shuffle_map)
  finally show ?thesis .
qed

text \<open>
  Claim C5. The paths and the labels found by the enumeration have one length, and the
  two shuffles, each from a generator made anew from the same seed, are one permutation
  \<open>perm\<close> of the indices applied to both lists: at every index after the shuffle, the
  path and the label are those of one original clip \<open>perm ! i\<close>. The generator is any
  one whose draw for the bound \<open>i\<close> lies in \<open>[0, i]\<close>.
\<close>

theorem shuffle_same_permutation:
  assumes range: "\<And>i g. fst (rk_interval i g) \<le> i"
    and found: "dataset_loop audio_dir entries 0 [] [] = Inr (audio_paths, labels)"
    and shuffled: "shuffle_paths_and_labels random_state rk_interval (audio_paths, labels)
                     = (audio_paths', labels')"
  shows "\<exists>perm. mset perm = mset [0..<length audio_paths] \<and>
           length labels = length audio_paths \<and>
           audio_paths' = map (\<lambda>k. audio_paths ! k) perm \<and>
           labels' = map (\<lambda>k. labels ! k) perm"
proof -
  let ?g = "random_state SHUFFLE_SEED"
  from found have len: "length audio_paths = length labels"
    by (rule dataset_loop_lengths) simp
  define perm where "perm = fst (rng_shuffle rk_interval ?g [0..<length audio_paths])"
  have "mset perm = mset [0..<length audio_paths]"
    unfolding perm_def using range by (rule rng_shuffle_mset)
  moreover have "audio_paths' = map (\<lambda>k. audio_paths ! k) perm"
    using shuffled rng_shuffle_indices [of rk_interval ?g audio_paths, OF range]
    by (simp add: shuffle_paths_and_labels_def perm_def)
  moreover have "labels' = map (\<lambda>k. labels ! k) perm"
    using shuffled rng_shuffle_indices [of rk_interval ?g labels, OF range] len
    by (simp add: shuffle_paths_and_labels_def perm_def)
  ultimately show ?thesis using len by auto
qed

lemma rng_shuffle_example:
  "fst (rng_shuffle (\<lambda>i (g::nat). ((g * 7 + 3) mod (i + 1), g * 7 + 3)) 43 [a, b, c, d])
     = [c, d, b, a]"
proof -
  have s: "Suc (Suc 0) = 2" "Suc (Suc (Suc 0)) = 3" "Suc (Suc (Suc (Suc 0))) = 4"
    by simp_all
  have m: "(14920::nat) mod Suc (Suc 0) = 0" "(2131::nat) mod Suc (Suc (Suc 0)) = Suc 0"
    "(304::nat) mod Suc (Suc (Suc (Suc 0))) = 0"
    unfolding s by simp_all
  show ?thesis
    by (simp add: rng_shuffle_def swap_at_def m)
qed

theorem shuffle_same_permutation_witness:
  "dataset_loop ''audio''
     [SubDir ''ann'' [''1.wav'', ''2.wav'', ''notes.txt''], SubDir ''bob'' [''7.wav'', ''8.wav'']]
     0 [] []
     = Inr ([''audio/ann/1.wav'', ''audio/ann/2.wav'', ''audio/bob/7.wav'', ''audio/bob/8.wav''],
            [0, 0, 1, 1]) \<and>
   shuffle_paths_and_labels (\<lambda>seed. seed) (\<lambda>i g. ((g * 7 + 3) mod (i + 1), g * 7 + 3))
     ([''audio/ann/1.wav'', ''audio/ann/2.wav'', ''audio/bob/7.wav'', ''audio/bob/8.wav''],
      [0, 0, 1, 1])
     = ([''audio/bob/7.wav'', ''audio/bob/8.wav'', ''audio/ann/2.wav'', ''audio/ann/1.wav''],
        [1, 1, 0, 0]) \<and>
   (\<exists>perm.
      mset perm = mset [0..<length [''audio/ann/1.wav'', ''audio/ann/2.wav'',
                                   ''audio/bob/7.wav'', ''audio/bob/8.wav'']] \<and>
      length [0, 0, 1, 1 :: nat]
        = length [''audio/ann/1.wav'', ''audio/ann/2.wav'', ''audio/bob/7.wav'',
                  ''audio/bob/8.wav''] \<and>
      [''audio/bob/7.wav'', ''audio/bob/8.wav'', ''audio/ann/2.wav'', ''audio/ann/1.wav'']
        = map (\<lambda>k. [''audio/ann/1.wav'', ''audio/ann/2.wav'', ''audio/bob/7.wav'',
                      ''audio/bob/8.wav''] ! k) perm \<and>
      [1, 1, 0, 0] = map (\<lambda>k. [0, 0, 1, 1 :: nat] ! k) perm)"
proof -
  let ?rk = "\<lambda>i (g::nat). ((g * 7 + 3) mod (i + 1), g * 7 + 3)"
  let ?paths = "[''audio/ann/1.wav'', ''audio/ann/2.wav'', ''audio/bob/7.wav'', ''audio/bob/8.wav'']"
  have r: "\<And>i g. fst (?rk i g) \<le> i"
    by (simp add: less_Suc_eq_le [symmetric])
  have d: "dataset_loop ''audio''
     [SubDir ''ann'' [''1.wav'', ''2.wav'', ''notes.txt''], SubDir ''bob'' [''7.wav'', ''8.wav'']]
     0 [] [] = Inr (?paths, [0, 0, 1, 1])"
    by (simp add: wav_paths_def path_join_def endswith_def)
  have e: "shuffle_paths_and_labels (\<lambda>seed. seed) ?rk (?paths, [0, 0, 1, 1])
     = ([''audio/bob/7.wav'', ''audio/bob/8.wav'', ''audio/ann/2.wav'', ''audio/ann/1.wav''],
        [1, 1, 0, 0])"
    unfolding shuffle_paths_and_labels_def SHUFFLE_SEED_def Let_def fst_conv snd_conv
    by (simp only: rng_shuffle_example)
  have "\<exists>perm. mset perm = mset [0..<length ?paths] \<and>
      length [0, 0, 1, 1 :: nat] = length ?paths \<and>
      [''audio/bob/7.wav'', ''audio/bob/8.wav'', ''audio/ann/2.wav'', ''audio/ann/1.wav'']
        = map (\<lambda>k. ?paths ! k) perm \<and>
      [1, 1, 0, 0] = map (\<lambda>k. [0, 0, 1, 1 :: nat] ! k) perm"
    using r d e by (rule shuffle_same_permutation)
  with d e show ?thesis by (intro conjI)
qed

subsection \<open>Model output\<close>





























subsection \<open>Early stopping\<close>

lemma on_epoch_end_improvement:
  assumes "is_improvement earlystopping_cb (val_loss lg) (best s)"
  shows "on_epoch_end earlystopping_cb e lg w s =
           s\<lparr>wait := 0, best := Some (val_loss lg), best_weights := Some w, best_epoch := e\<rparr>"
  using assms
  by (simp add: on_epoch_end_def earlystopping_cb_def EarlyStopping_def logs_get_def Let_def
      is_improvement_def)

lemma on_epoch_end_no_improvement:
  assumes "\<not> is_improvement earlystopping_cb (val_loss lg) (best s)"
    and "best_weights s = Some bw"
  shows "on_epoch_end earlystopping_cb e lg w s =
           (if 10 \<le> wait s + 1 \<and> 0 < e
            then s\<lparr>wait := wait s + 1, stopped_epoch := e, stop_training := True\<rparr>
            else s\<lparr>wait := wait s + 1\<rparr>)"
  using assms
  by (simp add: on_epoch_end_def earlystopping_cb_def EarlyStopping_def logs_get_def Let_def
      is_improvement_def)

lemma is_improvement_val_loss:
  "is_improvement earlystopping_cb v (Some b) = (v < b)"
  by (simp add: is_improvement_def earlystopping_cb_def EarlyStopping_def monitor_is_max_def)

lemma fit_loop_stall:
  assumes "best s = Some b" and "best_weights s = Some bw" and "\<not> stop_training s"
    and "wait s + m = 10" and "0 < m" and "0 < e"
    and "\<forall>i<m. \<not> val_loss (L (e + i)) < b" and "m \<le> r"
  shows "fit_loop earlystopping_cb W L r e s =
           (s\<lparr>wait := 10, stopped_epoch := e + m - 1, stop_training := True\<rparr>, e + m)"
  using assms
proof (induction m arbitrary: s e r)
  case 0
  then show ?case by simp
next
  case (Suc m)
  from Suc.prems(8) obtain r' where r: "r = Suc r'" by (cases r) auto
  from Suc.prems(7) have "\<not> val_loss (L e) < b" by force
  with Suc.prems(1) have ni: "\<not> is_improvement earlystopping_cb (val_loss (L e)) (best s)"
    by (simp add: is_improvement_val_loss)
  note step = on_epoch_end_no_improvement [OF ni Suc.prems(2), of e "W e"]
  show ?case
  proof (cases "m = 0")
    case True
    with Suc.prems(4) have "wait s + 1 = 10" by simp
    with step Suc.prems(6) True show ?thesis
      by (simp add: r)
  next
    case False
    with Suc.prems(4) have w: "\<not> 10 \<le> wait s + 1" by simp
    let ?s = "s\<lparr>wait := wait s + 1\<rparr>"
    from step w have st: "on_epoch_end earlystopping_cb e (L e) (W e) s = ?s" by simp
    have "fit_loop earlystopping_cb W L r' (Suc e) ?s =
            (?s\<lparr>wait := 10, stopped_epoch := Suc e + m - 1, stop_training := True\<rparr>, Suc e + m)"
    proof (rule Suc.IH)
      show "\<forall>i<m. \<not> val_loss (L (Suc e + i)) < b"
        using Suc.prems(7) by (metis Suc_less_eq add_Suc_shift)
    qed (use Suc.prems False r in simp_all)
    with st Suc.prems(3) False show ?thesis
      by (simp add: r)
  qed
qed

lemma fit_loop_running:
  "fit_loop cb W L a e s = (s', e') \<Longrightarrow> \<not> stop_training s' \<Longrightarrow>
   e' = e + a \<and> fit_loop cb W L (a + b) e s = fit_loop cb W L b e' s'"
proof (induction a arbitrary: e s)
  case 0
  then show ?case by simp
next
  case (Suc a)
  let ?s = "on_epoch_end cb e (L e) (W e) s"
  from Suc.prems have ns: "\<not> stop_training ?s"
    by (auto simp: Let_def split: if_splits)
  with Suc.prems have "fit_loop cb W L a (Suc e) ?s = (s', e')"
    by (simp add: Let_def)
  from Suc.IH [OF this Suc.prems(2)] ns show ?case
    by (simp add: Let_def)
qed

lemma fit_halts_ten_after_best:
  assumes run: "fit_loop earlystopping_cb W L k 0 on_train_begin = (s, n)"
    and going: "\<not> stop_training s"
    and peak: "is_improvement earlystopping_cb (val_loss (L k)) (best s)"
    and never: "\<forall>i<10. \<not> val_loss (L (Suc k + i)) < val_loss (L k)"
    and enough: "k + 11 \<le> epochs"
  shows "fit earlystopping_cb w0 W L epochs =
           \<lparr>final_weights = W k, epochs_run = k + 11, early_stopped = True\<rparr>"
proof -
  define r where "r = epochs - Suc k"
  from enough have ep: "epochs = k + Suc r" and r: "10 \<le> r"
    by (simp_all add: r_def)
  from fit_loop_running [OF run going, of "Suc r"]
  have n: "n = k" and cont: "fit_loop earlystopping_cb W L epochs 0 on_train_begin =
      fit_loop earlystopping_cb W L (Suc r) k s"
    by (simp_all add: ep del: fit_loop.simps)
  let ?s = "s\<lparr>wait := 0, best := Some (val_loss (L k)), best_weights := Some (W k),
               best_epoch := k\<rparr>"
  have st: "on_epoch_end earlystopping_cb k (L k) (W k) s = ?s"
    using peak by (rule on_epoch_end_improvement)
  have "fit_loop earlystopping_cb W L r (Suc k) ?s =
          (?s\<lparr>wait := 10, stopped_epoch := Suc k + 10 - 1, stop_training := True\<rparr>, Suc k + 10)"
    by (rule fit_loop_stall [where b = "val_loss (L k)" and bw = "W k"])
       (use going never r in simp_all)
  with st going cont have "fit_loop earlystopping_cb W L epochs 0 on_train_begin =
      (?s\<lparr>wait := 10, stopped_epoch := Suc k + 10 - 1, stop_training := True\<rparr>, Suc k + 10)"
    by simp
  then show ?thesis
    by (simp add: fit_def earlystopping_cb_def EarlyStopping_def)
qed

lemma fit_loop_improving:
  assumes "\<forall>e<k. val_loss (L (Suc e)) < val_loss (L e)"
  shows "fit_loop earlystopping_cb W L (Suc k) 0 on_train_begin =
           (\<lparr>wait = 0, best = Some (val_loss (L k)), best_weights = Some (W k),
             best_epoch = k, stopped_epoch = 0, stop_training = False\<rparr>, Suc k)"
  using assms
proof (induction k)
  case 0
  have "is_improvement earlystopping_cb (val_loss (L 0)) (best (on_train_begin :: 'a stopper))"
    by (simp add: is_improvement_def on_train_begin_def)
  from on_epoch_end_improvement [OF this, of 0 "W 0"] show ?case
    by (simp add: on_train_begin_def)
next
  case (Suc k)
  let ?s = "\<lparr>wait = 0, best = Some (val_loss (L k)), best_weights = Some (W k),
             best_epoch = k, stopped_epoch = 0, stop_training = False\<rparr>"
  from Suc have run: "fit_loop earlystopping_cb W L (Suc k) 0 on_train_begin = (?s, Suc k)"
    by simp
  have "\<not> stop_training ?s" by simp
  from fit_loop_running [OF run this, of "Suc 0"]
  have cont: "fit_loop earlystopping_cb W L (Suc (Suc k)) 0 on_train_begin =
                fit_loop earlystopping_cb W L (Suc 0) (Suc k) ?s"
    by (simp del: fit_loop.simps)
  from Suc.prems have "val_loss (L (Suc k)) < val_loss (L k)" by simp
  then have "is_improvement earlystopping_cb (val_loss (L (Suc k))) (best ?s)"
    by (simp add: is_improvement_val_loss)
  from on_epoch_end_improvement [OF this, of "Suc k" "W (Suc k)"] cont show ?case
    by simp
qed

text \<open>
  Claim C2, as amended. The early-stopping callback tracks the best validation loss
  seen, the quantity it monitors when none is named. When training is still going on
  after \<open>k\<close> epochs, the validation loss of the next epoch (epoch \<open>k + 1\<close>, counted
  from 1) improves on the best seen, and none of the ten epochs after it improves again,
  training halts at epoch \<open>k + 11\<close> and the weights of epoch \<open>k + 1\<close> are restored. With
  \<open>k = 11\<close> and 100 epochs: the best validation loss at epoch 12, the halt at epoch 22
  with the weights of epoch 12.
\<close>

theorem fit_stops_ten_epochs_after_best_val_loss:
  assumes "fit_loop earlystopping_cb weights_after logs_after k 0 on_train_begin = (s, n)"
    and "\<not> stop_training s"
    and "is_improvement earlystopping_cb (val_loss (logs_after k)) (best s)"
    and "\<forall>i<10. \<not> val_loss (logs_after (Suc k + i)) < val_loss (logs_after k)"
    and "k + 11 \<le> epochs"
  shows "fit earlystopping_cb w0 weights_after logs_after epochs =
           \<lparr>final_weights = weights_after k, epochs_run = k + 11, early_stopped = True\<rparr>"
  using assms by (rule fit_halts_ten_after_best)

theorem fit_stops_ten_epochs_after_best_val_loss_witness:
  "fit earlystopping_cb 0 Suc
     (\<lambda>e. \<lparr>loss = 0, accuracy = 0,
            val_loss = (if e < 12 then 1 / real (Suc e) else 1),
            val_accuracy = 1 / 2\<rparr>) 100
     = \<lparr>final_weights = 12, epochs_run = 22, early_stopped = True\<rparr>"
proof -
  let ?L = "\<lambda>e. \<lparr>loss = 0, accuracy = 0,
            val_loss = (if e < 12 then 1 / real (Suc e) else 1),
            val_accuracy = 1 / 2\<rparr>"
  let ?s = "\<lparr>wait = 0, best = Some (val_loss (?L 10)), best_weights = Some (Suc 10),
             best_epoch = 10, stopped_epoch = 0, stop_training = False\<rparr>"
  have "\<forall>e<10. val_loss (?L (Suc e)) < val_loss (?L e)"
    by (simp add: field_simps)
  then have "fit_loop earlystopping_cb Suc ?L (Suc 10) 0 on_train_begin = (?s, Suc 10)"
    by (rule fit_loop_improving)
  then have run: "fit_loop earlystopping_cb Suc ?L 11 0 on_train_begin = (?s, 11)"
    by (simp del: fit_loop.simps)
  have going: "\<not> stop_training ?s" by simp
  have peak: "is_improvement earlystopping_cb (val_loss (?L 11)) (best ?s)"
    by (simp add: is_improvement_val_loss)
  have never: "\<forall>i<10. \<not> val_loss (?L (Suc 11 + i)) < val_loss (?L 11)"
    by simp
  from fit_stops_ten_epochs_after_best_val_loss [OF run going peak never, of 100 0]
  show ?thesis by simp
qed

text \<open>
  A run of 100 epochs whose validation accuracy peaks at epoch 12 (index 11) and is
  lower at every other epoch, while the validation loss goes on improving until epoch
  20: training does not halt at epoch 22 but at epoch 30, and the weights restored are
  those of epoch 20.
\<close>

theorem fit_val_accuracy_peak_counterexample:
  "fit earlystopping_cb 0 Suc
     (\<lambda>e. \<lparr>loss = 0, accuracy = 0,
            val_loss = (if e < 20 then 1 / real (Suc e) else 1),
            val_accuracy = (if e < 11 then real e / 100 else if e = 11 then 9 / 10 else 1 / 2)\<rparr>)
     100
     = \<lparr>final_weights = 20, epochs_run = 30, early_stopped = True\<rparr> \<and>
   list_all
     (\<lambda>e. val_accuracy
            \<lparr>loss = 0, accuracy = 0,
             val_loss = (if e < 20 then 1 / real (Suc e) else 1),
             val_accuracy = (if e < 11 then real e / 100 else if e = 11 then 9 / 10 else 1 / 2)\<rparr>
          < 9 / 10)
     ([0..<11] @ [12..<100])"
proof -
  let ?L = "\<lambda>e. \<lparr>loss = 0, accuracy = 0,
            val_loss = (if e < 20 then 1 / real (Suc e) else 1),
            val_accuracy = (if e < 11 then real e / 100 else if e = 11 then 9 / 10 else 1 / 2)\<rparr>"
  let ?s = "\<lparr>wait = 0, best = Some (val_loss (?L 18)), best_weights = Some (Suc 18),
             best_epoch = 18, stopped_epoch = 0, stop_training = False\<rparr>"
  have "\<forall>e<18. val_loss (?L (Suc e)) < val_loss (?L e)"
    by (simp add: field_simps)
  then have "fit_loop earlystopping_cb Suc ?L (Suc 18) 0 on_train_begin = (?s, Suc 18)"
    by (rule fit_loop_improving)
  then have run: "fit_loop earlystopping_cb Suc ?L 19 0 on_train_begin = (?s, 19)"
    by (simp del: fit_loop.simps)
  have going: "\<not> stop_training ?s" by simp
  have peak: "is_improvement earlystopping_cb (val_loss (?L 19)) (best ?s)"
    by (simp add: is_improvement_val_loss)
  have never: "\<forall>i<10. \<not> val_loss (?L (Suc 19 + i)) < val_loss (?L 19)"
    by simp
  have acc: "list_all (\<lambda>e. val_accuracy (?L e) < 9 / 10) ([0..<11] @ [12..<100])"
    by (auto simp: list_all_iff)
  from fit_halts_ten_after_best [OF run going peak never, of 100 0] acc
  show ?thesis by simp
qed

end
